theory Spec2Isabelle
  imports Main
begin

section \<open>The document object model seen by the scraper\<close>

text \<open>
  The scraper reads parsed HTML through a handful of DOM operations: \<open>querySelector\<close>,
  \<open>querySelectorAll\<close>, \<open>textContent\<close>, \<open>classList.contains\<close> and the \<open>href\<close> property of an
  anchor. A node is an element (local name, class list, further attributes, children in
  document order) or a text node. Strings are the bytes of the UTF-8 encoding of the
  text.

  A query started at an element sees the ancestors of a candidate up to that element:
  the selectors of the program need no more (the parent of a candidate is the element
  itself or lies below it, and for the breadcrumbs a list directly below the article
  would need the article to be a \<open>nav\<close>).

  The \<open>href\<close> property of an element is computed by the DOM library from the attribute and
  the base URL of the document (it parses and serialises a URL, and an element of
  another kind than an HTML anchor may have no such property). It is a parameter of the
  model, \<open>hrefProperty\<close>, with \<open>None\<close> for \<open>undefined\<close>.
\<close>

datatype dom =
  Element string "string list" "(string \<times> string) list" "dom list"
  | Text string

datatype error = TypeError | HttpError | DocElementNotFound

text \<open>A compound selector: a tag name, required classes, required attribute values
  (\<open>#id\<close> is the attribute \<open>id\<close>).\<close>

datatype sel = Sel string "string list" "(string \<times> string) list"

fun matches :: "sel \<Rightarrow> dom \<Rightarrow> bool" where
  "matches (Sel t cs avs) (Element n cl as ks) =
     (n = t \<and> list_all (\<lambda>c. c \<in> set cl) cs \<and> list_all (\<lambda>(k, v). map_of as k = Some v) avs)"
| "matches s (Text x) = False"

text \<open>All proper descendants of a node in document order, each with its chain of
  ancestors up to the node the query started from (nearest ancestor first).\<close>

fun descendants :: "dom list \<Rightarrow> dom \<Rightarrow> (dom list \<times> dom) list" where
  "descendants anc (Text x) = []"
| "descendants anc (Element n cl as ks) =
     concat (map (\<lambda>k. (Element n cl as ks # anc, k) # descendants (Element n cl as ks # anc) k) ks)"

text \<open>A selector \<open>s1 > s2 > ... > sn\<close> is given subject first: \<open>[sn, ..., s1]\<close>.\<close>

fun matches_chain :: "sel list \<Rightarrow> dom list \<Rightarrow> dom \<Rightarrow> bool" where
  "matches_chain [] anc e = False"
| "matches_chain [s] anc e = matches s e"
| "matches_chain (s # s' # ss) [] e = False"
| "matches_chain (s # s' # ss) (p # anc) e = (matches s e \<and> matches_chain (s' # ss) anc p)"

definition querySelectorAll :: "sel list \<Rightarrow> dom \<Rightarrow> dom list" where
  "querySelectorAll chain e =
     map snd (filter (\<lambda>(anc, k). matches_chain chain anc k) (descendants [] e))"

definition querySelector :: "sel list \<Rightarrow> dom \<Rightarrow> dom option" where
  "querySelector chain e =
     (case querySelectorAll chain e of [] \<Rightarrow> None | k # _ \<Rightarrow> Some k)"

fun textContent :: "dom \<Rightarrow> string" where
  "textContent (Text x) = x"
| "textContent (Element n cl as ks) = concat (map textContent ks)"

fun classList_contains :: "dom \<Rightarrow> string \<Rightarrow> bool" where
  "classList_contains (Element n cl as ks) c = (c \<in> set cl)"
| "classList_contains (Text x) c = False"

fun show_nat :: "nat \<Rightarrow> string" where
  "show_nat n = (if n < 10 then [''0123456789'' ! n]
                 else show_nat (n div 10) @ [''0123456789'' ! (n mod 10)])"

declare show_nat.simps [simp del]

section \<open>Navigation tree\<close>

text \<open>The object \<open>data\<close>: \<open>href\<close> is \<open>None\<close> when the property is \<open>undefined\<close>, \<open>childData\<close> is
  \<open>None\<close> when the object has no such field.\<close>

datatype NavData =
  NavData (title: string) (href: "string option") (external: bool)
    (childData: "NavData list option")

fun sequence_sum :: "('e + 'a) list \<Rightarrow> 'e + 'a list" where
  "sequence_sum [] = Inr []"
| "sequence_sum (Inl e # rs) = Inl e"
| "sequence_sum (Inr a # rs) = (case sequence_sum rs of Inl e \<Rightarrow> Inl e | Inr as \<Rightarrow> Inr (a # as))"

definition childElems :: "dom \<Rightarrow> nat \<Rightarrow> dom list" where
  "childElems elem depth =
     querySelectorAll [Sel ''li'' [''nav-item''] [(''data-depth'', show_nat depth)],
                       Sel ''ul'' [''nav-list''] []] elem"

lemma descendants_size: "(anc', k) \<in> set (descendants anc e) \<Longrightarrow> size k < size e"
proof (induction e arbitrary: anc anc' k)
  case (Element n cl as ks)
  from Element.prems obtain c where c: "c \<in> set ks"
    and k: "(anc', k) = (Element n cl as ks # anc, c) \<or> (anc', k) \<in> set (descendants (Element n cl as ks # anc) c)"
    by auto
  have "size c < size (Element n cl as ks)"
    using c by (simp add: less_Suc_eq_le size_list_estimation')
  moreover have "size k \<le> size c"
    using k Element.IH [OF c] by (auto simp: less_imp_le)
  ultimately show ?case by simp
next
  case (Text x)
  then show ?case by simp
qed

lemma childElems_size: "c \<in> set (childElems elem depth) \<Longrightarrow> size c < size elem"
  by (auto simp: childElems_def querySelectorAll_def dest: descendants_size)

function recursiveDepthSearch :: "(dom \<Rightarrow> string option) \<Rightarrow> dom \<Rightarrow> nat \<Rightarrow> error + NavData" where
  "recursiveDepthSearch hrefProperty elem depth =
     (case querySelector [Sel ''a'' [] []] elem of
        None \<Rightarrow> Inl TypeError
      | Some a \<Rightarrow>
          if length (childElems elem depth) = 0
          then Inr (NavData (textContent a) (hrefProperty a)
                      (classList_contains a ''link-external'') None)
          else (case sequence_sum
                       (map (\<lambda>childElem. recursiveDepthSearch hrefProperty childElem (depth + 1))
                            (childElems elem depth)) of
                  Inl e \<Rightarrow> Inl e
                | Inr children \<Rightarrow>
                    Inr (NavData (textContent a) (hrefProperty a)
                           (classList_contains a ''link-external'') (Some children))))"
  by pat_completeness auto
termination
  by (relation "measure (\<lambda>(hrefProperty, elem, depth). size elem)") (auto dest: childElems_size)

declare recursiveDepthSearch.simps [simp del]

section \<open>Walking the tree\<close>

text \<open>
  \<open>recursiveAnchorProcess\<close> calls the callback on every node, the children of a node first
  (in the order of \<open>childData\<close>), the node itself last. The callback may assign fields of
  the node it is given and update variables it closes over: it maps the node and the
  captured state \<open>'s\<close> to their new values.
\<close>

fun recursiveAnchorProcess :: "(NavData \<Rightarrow> 's \<Rightarrow> NavData \<times> 's) \<Rightarrow> NavData \<Rightarrow> 's \<Rightarrow> NavData \<times> 's"
  and processChildren :: "(NavData \<Rightarrow> 's \<Rightarrow> NavData \<times> 's) \<Rightarrow> NavData list \<Rightarrow> 's \<Rightarrow> NavData list \<times> 's"
where
  "recursiveAnchorProcess callback (NavData t h x None) s = callback (NavData t h x None) s"
| "recursiveAnchorProcess callback (NavData t h x (Some cs)) s =
     (case processChildren callback cs s of
        (cs', s') \<Rightarrow> callback (NavData t h x (Some cs')) s')"
| "processChildren callback [] s = ([], s)"
| "processChildren callback (c # cs) s =
     (case recursiveAnchorProcess callback c s of
        (c', s') \<Rightarrow> (case processChildren callback cs s' of
                       (cs', s'') \<Rightarrow> (c' # cs', s'')))"

section \<open>Link resolution and navigation extraction\<close>

definition startsWith :: "string \<Rightarrow> string \<Rightarrow> bool" where
  "startsWith s p = (take (length p) s = p)"

definition endsWith :: "string \<Rightarrow> string \<Rightarrow> bool" where
  "endsWith s p = (length p \<le> length s \<and> drop (length s - length p) s = p)"

text \<open>The new value the link callback of \<open>getSpringBootDocsNavData\<close> gives a \<open>data.href\<close> that
  is a string (an empty string is falsy: it is left alone, as is \<open>undefined\<close>).\<close>

definition resolve :: "string \<Rightarrow> string \<Rightarrow> string" where
  "resolve h baseURL =
     (if h \<noteq> [] then baseURL @ (if startsWith h ''/'' then [] else ''/'') @ h else h)"

definition resolveCallback :: "string \<Rightarrow> NavData \<Rightarrow> unit \<Rightarrow> NavData \<times> unit" where
  "resolveCallback baseURL data u =
     (case href data of
        None \<Rightarrow> (data, u)
      | Some h \<Rightarrow>
          (NavData (title data) (Some (resolve h baseURL)) (external data) (childData data), u))"

text \<open>
  The network is a parameter: the \<open>k\<close>-th GET request of a run, sent to a URL, fails or
  returns a body. So is the HTML parser, which returns the document node.
\<close>

type_synonym network = "nat \<Rightarrow> string \<Rightarrow> error + string"

definition getHtmlData :: "network \<Rightarrow> nat \<Rightarrow> string \<Rightarrow> error + string" where
  "getHtmlData net k u = net k u"

definition stripSlash :: "string \<Rightarrow> string" where
  "stripSlash baseURL = (if endsWith baseURL ''/'' then take (length baseURL - 1) baseURL else baseURL)"

definition getSpringBootDocsNavData ::
  "network \<Rightarrow> (dom \<Rightarrow> string option) \<Rightarrow> (string \<Rightarrow> dom) \<Rightarrow> string \<Rightarrow> error + NavData" where
  "getSpringBootDocsNavData net hrefProperty convertHtmlToDOM baseURL0 =
     (let baseURL = stripSlash baseURL0 in
      case getHtmlData net 0 baseURL of
        Inl e \<Rightarrow> Inl e
      | Inr htmlData \<Rightarrow>
          (case querySelector [Sel ''nav'' [''nav-menu''] []] (convertHtmlToDOM htmlData) of
             None \<Rightarrow> Inl TypeError
           | Some rootNavElem \<Rightarrow>
               (case recursiveDepthSearch hrefProperty rootNavElem 1 of
                  Inl e \<Rightarrow> Inl e
                | Inr refinedData \<Rightarrow>
                    Inr (fst (recursiveAnchorProcess (resolveCallback baseURL) refinedData ())))))"

text \<open>The callback of \<open>main\<close> that collects the URLs to fetch.\<close>

definition collectCallback :: "NavData \<Rightarrow> string list \<Rightarrow> NavData \<times> string list" where
  "collectCallback data articleUrls =
     (case href data of
        None \<Rightarrow> (data, articleUrls)
      | Some h \<Rightarrow>
          if h \<noteq> [] \<and> \<not> external data then (data, articleUrls @ [h])
          else (data, articleUrls))"

definition collectArticleUrls :: "NavData \<Rightarrow> string list" where
  "collectArticleUrls refinedData = snd (recursiveAnchorProcess collectCallback refinedData [])"

section \<open>Article extraction\<close>

record ArticleDoc =
  url :: string
  articleTitle :: string
  breadcrumbs :: string
  content :: string

text \<open>
  \<open>String.prototype.trim\<close> removes white space and line terminators from both ends: the
  code points U+0009 to U+000D, U+0020, U+00A0, U+1680, U+2000 to U+200A, U+2028,
  U+2029, U+202F, U+205F, U+3000 and U+FEFF, listed here in UTF-8.
\<close>

definition whiteSpace :: "string list" where
  "whiteSpace =
     [[CHR 0x09], [CHR 0x0A], [CHR 0x0B], [CHR 0x0C], [CHR 0x0D], [CHR 0x20],
      [CHR 0xC2, CHR 0xA0],
      [CHR 0xE1, CHR 0x9A, CHR 0x80],
      [CHR 0xE2, CHR 0x80, CHR 0x80], [CHR 0xE2, CHR 0x80, CHR 0x81],
      [CHR 0xE2, CHR 0x80, CHR 0x82], [CHR 0xE2, CHR 0x80, CHR 0x83],
      [CHR 0xE2, CHR 0x80, CHR 0x84], [CHR 0xE2, CHR 0x80, CHR 0x85],
      [CHR 0xE2, CHR 0x80, CHR 0x86], [CHR 0xE2, CHR 0x80, CHR 0x87],
      [CHR 0xE2, CHR 0x80, CHR 0x88], [CHR 0xE2, CHR 0x80, CHR 0x89],
      [CHR 0xE2, CHR 0x80, CHR 0x8A],
      [CHR 0xE2, CHR 0x80, CHR 0xA8], [CHR 0xE2, CHR 0x80, CHR 0xA9],
      [CHR 0xE2, CHR 0x80, CHR 0xAF],
      [CHR 0xE2, CHR 0x81, CHR 0x9F],
      [CHR 0xE3, CHR 0x80, CHR 0x80],
      [CHR 0xEF, CHR 0xBB, CHR 0xBF]]"

lemma whiteSpace_nonempty: "w \<in> set whiteSpace \<Longrightarrow> w \<noteq> []"
  by (auto simp: whiteSpace_def)

lemma find_whiteSpace:
  assumes "find P whiteSpace = Some w"
  shows "P w \<and> w \<noteq> []"
proof -
  from assms obtain i where "i < length whiteSpace" and "P (whiteSpace ! i)" and "w = whiteSpace ! i"
    by (auto simp: find_Some_iff)
  then show ?thesis using whiteSpace_nonempty by auto
qed

function trimStart :: "string \<Rightarrow> string" where
  "trimStart s =
     (case find (\<lambda>w. startsWith s w) whiteSpace of
        None \<Rightarrow> s
      | Some w \<Rightarrow> trimStart (drop (length w) s))"
  by pat_completeness auto
termination
proof (relation "measure length")
  show "wf (measure length)" by simp
next
  fix s :: string and w
  assume "find (\<lambda>w. startsWith s w) whiteSpace = Some w"
  then have "startsWith s w" and "w \<noteq> []" using find_whiteSpace by blast+
  then have "s \<noteq> []" by (auto simp: startsWith_def)
  then show "(drop (length w) s, s) \<in> measure length"
    using \<open>w \<noteq> []\<close> by simp
qed

function trimEnd :: "string \<Rightarrow> string" where
  "trimEnd s =
     (case find (\<lambda>w. endsWith s w) whiteSpace of
        None \<Rightarrow> s
      | Some w \<Rightarrow> trimEnd (take (length s - length w) s))"
  by pat_completeness auto
termination
proof (relation "measure length")
  show "wf (measure length)" by simp
next
  fix s :: string and w
  assume "find (\<lambda>w. endsWith s w) whiteSpace = Some w"
  then have "endsWith s w" and "w \<noteq> []" using find_whiteSpace by blast+
  then have "s \<noteq> []" by (auto simp: endsWith_def)
  then show "(take (length s - length w) s, s) \<in> measure length"
    using \<open>w \<noteq> []\<close> by simp
qed

declare trimStart.simps [simp del]
declare trimEnd.simps [simp del]

definition trim :: "string \<Rightarrow> string" where
  "trim s = trimEnd (trimStart s)"

fun join :: "string \<Rightarrow> string list \<Rightarrow> string" where
  "join sep [] = []"
| "join sep [x] = x"
| "join sep (x # y # ys) = x @ sep @ join sep (y # ys)"

definition getArticleTitle :: "dom \<Rightarrow> error + string" where
  "getArticleTitle articleElem =
     (case querySelector [Sel ''h1'' [] [(''id'', ''page-title'')]] articleElem of
        None \<Rightarrow> Inl TypeError
      | Some h \<Rightarrow> Inr (trim (textContent h)))"

definition getArticleBreadcrumbs :: "dom \<Rightarrow> string" where
  "getArticleBreadcrumbs articleElem =
     join '' > '' (map (\<lambda>li. trim (textContent li))
       (querySelectorAll [Sel ''li'' [] [], Sel ''ul'' [] [], Sel ''nav'' [''breadcrumbs''] []]
          articleElem))"

text \<open>The serialisation \<open>innerHTML\<close> is a parameter, like the parser.\<close>

definition getSpringBootDocsArticleData ::
  "network \<Rightarrow> (string \<Rightarrow> dom) \<Rightarrow> (dom \<Rightarrow> string) \<Rightarrow> nat \<Rightarrow> string \<Rightarrow> error + ArticleDoc" where
  "getSpringBootDocsArticleData net convertHtmlToDOM innerHTML k u =
     (case getHtmlData net k u of
        Inl e \<Rightarrow> Inl e
      | Inr htmlData \<Rightarrow>
          (case querySelector [Sel ''article'' [''doc''] []] (convertHtmlToDOM htmlData) of
             None \<Rightarrow> Inl DocElementNotFound
           | Some articleElem \<Rightarrow>
               (case getArticleTitle articleElem of
                  Inl e \<Rightarrow> Inl e
                | Inr t \<Rightarrow>
                    Inr \<lparr>url = u, articleTitle = t,
                         breadcrumbs = getArticleBreadcrumbs articleElem,
                         content = innerHTML articleElem\<rparr>)))"

section \<open>The progress bar\<close>

text \<open>
  The class \<open>ProgressBar\<close> of \<open>progress-utils.js\<close>, without its start time. \<open>render\<close> writes
  through \<open>process.stdout.clearLine\<close> and \<open>cursorTo\<close>, which exist only when the standard
  output is a terminal: \<open>isTTY\<close> says whether it is, and \<open>render\<close> throws a \<open>TypeError\<close> when
  it is not. Nothing else in \<open>render\<close> throws (the two widths it computes lie between zero
  and the width of the bar). What it writes is left out.
\<close>

record ProgressBar =
  total :: nat
  current :: nat
  width :: nat
  isComplete :: bool

definition newProgressBar :: "nat \<Rightarrow> ProgressBar" where
  "newProgressBar n = \<lparr>total = n, current = 0, width = 30, isComplete = False\<rparr>"

definition ProgressBar_render :: "bool \<Rightarrow> ProgressBar \<Rightarrow> error + unit" where
  "ProgressBar_render isTTY pb = (if isTTY then Inr () else Inl TypeError)"

definition ProgressBar_complete :: "bool \<Rightarrow> ProgressBar \<Rightarrow> (error + unit) \<times> ProgressBar" where
  "ProgressBar_complete isTTY pb =
     (let pb1 = pb\<lparr>current := total pb\<rparr> in (ProgressBar_render isTTY pb1, pb1))"

definition ProgressBar_update :: "bool \<Rightarrow> nat \<Rightarrow> ProgressBar \<Rightarrow> (error + unit) \<times> ProgressBar" where
  "ProgressBar_update isTTY n pb =
     (if total pb \<le> current pb \<and> \<not> isComplete pb then
        (case ProgressBar_complete isTTY (pb\<lparr>isComplete := True\<rparr>) of
           (Inl e, pb1) \<Rightarrow> (Inl e, pb1)
         | (Inr u, pb1) \<Rightarrow>
             (let pb2 = pb1\<lparr>current := n\<rparr> in (ProgressBar_render isTTY pb2, pb2)))
      else (let pb2 = pb\<lparr>current := n\<rparr> in (ProgressBar_render isTTY pb2, pb2)))"

section \<open>Batched fetching\<close>

text \<open>
  What the run does to the outside world, in order: the GET requests of a batch (issued
  together by \<open>batch.map\<close>), a call \<open>progress.update(n)\<close>, a pause of so many milliseconds.
\<close>

datatype event = Requests "string list" | Update nat | Delay nat

record main_state =
  completedCount :: nat
  progress :: ProgressBar
  articleDataArr :: "ArticleDoc list"
  trace :: "event list"

text \<open>A slot of the array \<open>Promise.all\<close> fills: not yet settled, \<open>null\<close>, or an object.\<close>

datatype 'a js = Undefined | Null | Obj 'a

text \<open>A settled promise is \<open>Inl\<close> (rejected) or \<open>Inr\<close> (fulfilled); \<open>.then\<close> and \<open>.catch\<close>
  run their handler on the matching outcome and pass the other one through. A handler
  that throws rejects the promise it was to settle.\<close>

definition promise_then ::
  "'e + 'a \<Rightarrow> ('a \<Rightarrow> 's \<Rightarrow> ('e + 'b) \<times> 's) \<Rightarrow> 's \<Rightarrow> ('e + 'b) \<times> 's" where
  "promise_then p onFulfilled s = (case p of Inl e \<Rightarrow> (Inl e, s) | Inr a \<Rightarrow> onFulfilled a s)"

definition promise_catch ::
  "'e + 'a \<Rightarrow> ('e \<Rightarrow> 's \<Rightarrow> ('e + 'a) \<times> 's) \<Rightarrow> 's \<Rightarrow> ('e + 'a) \<times> 's" where
  "promise_catch p onRejected s = (case p of Inl e \<Rightarrow> onRejected e s | Inr a \<Rightarrow> (Inr a, s))"

text \<open>The two handlers of a task: \<open>completedCount++\<close>, then \<open>progress.update(completedCount)\<close>,
  which may throw, then the value.\<close>

definition thenHandler ::
  "bool \<Rightarrow> ArticleDoc \<Rightarrow> main_state \<Rightarrow> (error + ArticleDoc js) \<times> main_state" where
  "thenHandler isTTY articleData st =
     (let st1 = st\<lparr>completedCount := completedCount st + 1\<rparr>;
          st2 = st1\<lparr>trace := trace st1 @ [Update (completedCount st1)]\<rparr>
      in case ProgressBar_update isTTY (completedCount st1) (progress st2) of
           (Inl e, pb) \<Rightarrow> (Inl e, st2\<lparr>progress := pb\<rparr>)
         | (Inr u, pb) \<Rightarrow> (Inr (Obj articleData), st2\<lparr>progress := pb\<rparr>))"

definition catchHandler ::
  "bool \<Rightarrow> error \<Rightarrow> main_state \<Rightarrow> (error + ArticleDoc js) \<times> main_state" where
  "catchHandler isTTY err st =
     (let st1 = st\<lparr>completedCount := completedCount st + 1\<rparr>;
          st2 = st1\<lparr>trace := trace st1 @ [Update (completedCount st1)]\<rparr>
      in case ProgressBar_update isTTY (completedCount st1) (progress st2) of
           (Inl e, pb) \<Rightarrow> (Inl e, st2\<lparr>progress := pb\<rparr>)
         | (Inr u, pb) \<Rightarrow> (Inr Null, st2\<lparr>progress := pb\<rparr>))"

definition settleTask ::
  "bool \<Rightarrow> error + ArticleDoc \<Rightarrow> main_state \<Rightarrow> (error + ArticleDoc js) \<times> main_state" where
  "settleTask isTTY fetched st =
     (case promise_then fetched (thenHandler isTTY) st of
        (p, st') \<Rightarrow> promise_catch p (catchHandler isTTY) st')"

text \<open>
  The promises of a batch settle in an order the program does not control. \<open>pick n\<close>
  chooses which of the \<open>n\<close> promises still pending settles next; its handlers run then,
  and \<open>Promise.all\<close> stores the value in the promise's own slot. A rejected promise
  rejects \<open>Promise.all\<close> at once: the \<open>await\<close> throws and \<open>main\<close> ends with that error, in the
  state reached then.
\<close>

function settleAll ::
  "bool \<Rightarrow> (nat \<Rightarrow> nat) \<Rightarrow> (error + ArticleDoc) list \<Rightarrow> nat list \<Rightarrow> ArticleDoc js list
     \<Rightarrow> main_state \<Rightarrow> error \<times> main_state + ArticleDoc js list \<times> main_state" where
  "settleAll isTTY pick fetched pending vals st =
     (if pending = [] then Inr (vals, st)
      else (let k = pick (length pending) mod length pending; j = pending ! k in
            case settleTask isTTY (fetched ! j) st of
              (Inl e, st') \<Rightarrow> Inl (e, st')
            | (Inr v, st') \<Rightarrow>
                settleAll isTTY pick fetched (take k pending @ drop (Suc k) pending)
                  (vals[j := v]) st'))"
  by pat_completeness auto
termination
proof (relation "measure (\<lambda>(isTTY, pick, fetched, pending, vals, st). length pending)")
  show "wf (measure (\<lambda>(isTTY, pick, fetched, pending, vals, st). length pending))"
    by simp
next
  fix isTTY :: bool and pick :: "nat \<Rightarrow> nat" and fetched :: "(error + ArticleDoc) list"
    and pending :: "nat list" and vals :: "ArticleDoc js list" and st :: main_state
    and k j x y v
  assume "pending \<noteq> []" and k: "k = pick (length pending) mod length pending"
  then have "k < length pending" by simp
  then have "length (take k pending @ drop (Suc k) pending) < length pending"
    by simp
  then show "((isTTY, pick, fetched, take k pending @ drop (Suc k) pending, vals[j := v], y),
               isTTY, pick, fetched, pending, vals, st)
             \<in> measure (\<lambda>(isTTY, pick, fetched, pending, vals, st). length pending)"
    by simp
qed

declare settleAll.simps [simp del]

definition slice :: "'a list \<Rightarrow> nat \<Rightarrow> nat \<Rightarrow> 'a list" where
  "slice xs i j = drop i (take j xs)"

fun filterBoolean :: "'a js list \<Rightarrow> 'a list" where
  "filterBoolean [] = []"
| "filterBoolean (Obj a # rs) = a # filterBoolean rs"
| "filterBoolean (r # rs) = filterBoolean rs"

type_synonym schedule = "nat \<Rightarrow> nat \<Rightarrow> nat"

text \<open>
  The \<open>for\<close> loop of \<open>main\<close>, from index \<open>i\<close>. The promise for the task at index \<open>i + p\<close> is
  request number \<open>i + p + 1\<close> of the run (request \<open>0\<close> fetched the navigation page). The
  schedule \<open>pick i\<close> orders the settling of the batch that starts at index \<open>i\<close>. The result
  is \<open>Inr\<close> of the final state when the loop ends, \<open>Inl\<close> of the error and the state reached
  when an \<open>await\<close> throws, and \<open>None\<close> when the loop never ends (a batch size of zero).
  Every request is taken to settle and the timer to fire; what is printed on the
  console is left out.
\<close>

partial_function (option) batchLoop ::
  "nat \<Rightarrow> bool \<Rightarrow> (nat \<Rightarrow> string \<Rightarrow> error + ArticleDoc) \<Rightarrow> schedule \<Rightarrow> string list \<Rightarrow> nat
     \<Rightarrow> main_state \<Rightarrow> (error \<times> main_state + main_state) option" where
  "batchLoop BATCH_SIZE isTTY fetchOne pick articleUrls i st =
     (if i < length articleUrls then
        (let batch = slice articleUrls i (i + BATCH_SIZE);
             batchPromises = map (\<lambda>(p, u). fetchOne (i + p + 1) u) (zip [0..<length batch] batch);
             st1 = st\<lparr>trace := trace st @ [Requests batch]\<rparr>
         in case settleAll isTTY (pick i) batchPromises [0..<length batch]
                   (replicate (length batch) Undefined) st1 of
              Inl (e, st2) \<Rightarrow> Some (Inl (e, st2))
            | Inr (batchResults, st2) \<Rightarrow>
                batchLoop BATCH_SIZE isTTY fetchOne pick articleUrls (i + BATCH_SIZE)
                  (st2\<lparr>articleDataArr := articleDataArr st2 @ filterBoolean batchResults,
                       trace := trace st2 @ [Delay 500]\<rparr>))
      else Some (Inr st))"

declare batchLoop.simps [code]

text \<open>The state before the loop: the counter at zero, \<open>new ProgressBar(articleUrls.length)\<close>,
  no article yet.\<close>

definition initialState :: "nat \<Rightarrow> main_state" where
  "initialState n =
     \<lparr>completedCount = 0, progress = newProgressBar n, articleDataArr = [], trace = []\<rparr>"

section \<open>Aggregation\<close>

text \<open>
  \<open>allArticleData\<close> starts as \<open>{}\<close> and is assigned one property per saved article, named by
  the article's title. The value keeps the URL, the breadcrumbs and the content. Assigning
  the property \<open>__proto__\<close> of an ordinary object calls the inherited setter and adds no
  property.
\<close>

type_synonym indexEntry = "string \<times> string \<times> string"

definition setProperty :: "(string \<rightharpoonup> 'v) \<Rightarrow> string \<Rightarrow> 'v \<Rightarrow> (string \<rightharpoonup> 'v)" where
  "setProperty obj key v = (if key = ''__proto__'' then obj else obj(key \<mapsto> v))"

definition allArticleData :: "ArticleDoc list \<Rightarrow> (string \<rightharpoonup> indexEntry)" where
  "allArticleData docs =
     foldl (\<lambda>obj articleData.
              setProperty obj (articleTitle articleData)
                (url articleData, breadcrumbs articleData, content articleData))
       Map.empty docs"

section \<open>The whole run\<close>

definition BATCH_SIZE :: nat where
  "BATCH_SIZE = 5"

text \<open>The result of \<open>main\<close>: what it writes to \<open>nav-data.json\<close>, the articles it saves, the
  object it writes to \<open>articles.json\<close>, and its effects. The file system is left out:
  creating the directories and writing the files is taken to succeed.\<close>

definition main ::
  "network \<Rightarrow> (dom \<Rightarrow> string option) \<Rightarrow> (string \<Rightarrow> dom) \<Rightarrow> (dom \<Rightarrow> string) \<Rightarrow> bool \<Rightarrow> schedule
     \<Rightarrow> (error + NavData \<times> ArticleDoc list \<times> (string \<rightharpoonup> indexEntry) \<times> event list) option" where
  "main net hrefProperty convertHtmlToDOM innerHTML isTTY pick =
     (case getSpringBootDocsNavData net hrefProperty convertHtmlToDOM
             ''https://docs.spring.io/spring-boot'' of
        Inl e \<Rightarrow> Some (Inl e)
      | Inr refinedData \<Rightarrow>
          (let articleUrls = collectArticleUrls refinedData in
           case batchLoop BATCH_SIZE isTTY
                  (getSpringBootDocsArticleData net convertHtmlToDOM innerHTML)
                  pick articleUrls 0 (initialState (length articleUrls)) of
             None \<Rightarrow> None
           | Some (Inl (e, st)) \<Rightarrow> Some (Inl e)
           | Some (Inr st) \<Rightarrow>
               Some (Inr (refinedData, articleDataArr st, allArticleData (articleDataArr st),
                          trace st))))"

section \<open>Vocabulary of the properties\<close>

text \<open>The nodes of a tree, every node after all the nodes below it, siblings in the order
  of \<open>childData\<close>.\<close>

fun postorder :: "NavData \<Rightarrow> NavData list" where
  "postorder (NavData t h x None) = [NavData t h x None]"
| "postorder (NavData t h x (Some cs)) = concat (map postorder cs) @ [NavData t h x (Some cs)]"

text \<open>A node whose link is fetched: the link is a non-empty string and the node is not
  external. The link as a string.\<close>

definition fetchable :: "NavData \<Rightarrow> bool" where
  "fetchable data = (case href data of None \<Rightarrow> False | Some h \<Rightarrow> h \<noteq> [] \<and> \<not> external data)"

definition hrefText :: "NavData \<Rightarrow> string" where
  "hrefText data = (case href data of None \<Rightarrow> [] | Some h \<Rightarrow> h)"

text \<open>The specification's reading of the children of a container: the navigation items
  directly below it (in a list that is its child) whose marker is \<open>depth + 1\<close>.\<close>

definition childNodes :: "dom \<Rightarrow> dom list" where
  "childNodes e = (case e of Element n cl as ks \<Rightarrow> ks | Text x \<Rightarrow> [])"

definition spec_childItems :: "dom \<Rightarrow> nat \<Rightarrow> dom list" where
  "spec_childItems elem depth =
     concat (map (\<lambda>ul. filter (matches (Sel ''li'' [''nav-item''] [(''data-depth'', show_nat (depth + 1))]))
                          (childNodes ul))
                 (filter (matches (Sel ''ul'' [''nav-list''] [])) (childNodes elem)))"

text \<open>What the code selects: the navigation items anywhere below the container whose
  parent is a navigation list and whose marker is the decimal numeral of \<open>depth\<close>.\<close>

definition isNavItem :: "nat \<Rightarrow> dom \<Rightarrow> bool" where
  "isNavItem depth k = matches (Sel ''li'' [''nav-item''] [(''data-depth'', show_nat depth)]) k"

definition isNavList :: "dom \<Rightarrow> bool" where
  "isNavList p = matches (Sel ''ul'' [''nav-list''] []) p"

fun parentIs :: "(dom \<Rightarrow> bool) \<Rightarrow> dom list \<Rightarrow> bool" where
  "parentIs P [] = False"
| "parentIs P (p # anc) = P p"

definition navItemsBelow :: "dom \<Rightarrow> nat \<Rightarrow> dom list" where
  "navItemsBelow elem depth =
     map snd (filter (\<lambda>(anc, k). isNavItem depth k \<and> parentIs isNavList anc) (descendants [] elem))"

text \<open>A link with the base URL in front of it, a slash between the two unless the link
  begins with one; the empty link stays empty. A tree with every link so prefixed.\<close>

definition prefixed :: "string \<Rightarrow> string \<Rightarrow> string" where
  "prefixed b h = (if h = [] then [] else if hd h = CHR ''/'' then b @ h else b @ ''/'' @ h)"

fun prefixTree :: "string \<Rightarrow> NavData \<Rightarrow> NavData"
  and prefixTrees :: "string \<Rightarrow> NavData list \<Rightarrow> NavData list"
where
  "prefixTree b (NavData t h x None) = NavData t (map_option (prefixed b) h) x None"
| "prefixTree b (NavData t h x (Some cs)) =
     NavData t (map_option (prefixed b) h) x (Some (prefixTrees b cs))"
| "prefixTrees b [] = []"
| "prefixTrees b (c # cs) = prefixTree b c # prefixTrees b cs"

text \<open>The outcome of a task as \<open>Promise.all\<close> sees it, the articles of the fulfilled ones,
  and the fetch outcomes of the tasks \<open>i, ..., j - 1\<close>.\<close>

fun toResult :: "error + ArticleDoc \<Rightarrow> ArticleDoc js" where
  "toResult (Inl e) = Null"
| "toResult (Inr d) = Obj d"

fun successes :: "(error + ArticleDoc) list \<Rightarrow> ArticleDoc list" where
  "successes [] = []"
| "successes (Inl e # rs) = successes rs"
| "successes (Inr d # rs) = d # successes rs"

definition outcomes ::
  "(nat \<Rightarrow> string \<Rightarrow> error + ArticleDoc) \<Rightarrow> string list \<Rightarrow> nat \<Rightarrow> nat \<Rightarrow> (error + ArticleDoc) list" where
  "outcomes fetchOne urls i j = map (\<lambda>k. fetchOne (k + 1) (urls ! k)) [i..<j]"



text \<open>The effects of a loop that runs to its end on a list of tasks, when \<open>c\<close> tasks have
  completed before: for each batch its requests, one progress update per task, and the
  pause.\<close>

function batchTrace :: "nat \<Rightarrow> nat \<Rightarrow> string list \<Rightarrow> event list" where
  "batchTrace B c xs =
     (if B = 0 \<or> xs = [] then []
      else Requests (take B xs) # map Update [c + 1..<c + 1 + length (take B xs)]
             @ Delay 500 # batchTrace B (c + length (take B xs)) (drop B xs))"
  by pat_completeness auto
termination
  by (relation "measure (\<lambda>(B, c, xs). length xs)") auto

declare batchTrace.simps [simp del]



text \<open>The error of a run that ended with one, and the state a run ended in.\<close>

fun runError :: "(error \<times> main_state + main_state) option \<Rightarrow> error option" where
  "runError (Some (Inl (e, st))) = Some e"
| "runError r = None"

fun runState :: "(error \<times> main_state + main_state) option \<Rightarrow> main_state option" where
  "runState None = None"
| "runState (Some (Inl (e, st))) = Some st"
| "runState (Some (Inr st)) = Some st"

section \<open>Example inputs\<close>

text \<open>The tree of the specification's first scenario: a root with an empty title and
  link, below it A, the external B, and C with its child D.\<close>

definition exampleTree :: NavData where
  "exampleTree =
     NavData [] (Some []) False (Some [
       NavData ''A'' (Some ''https://d.example/A'') False None,
       NavData ''B'' (Some ''https://d.example/B'') True None,
       NavData ''C'' (Some ''https://d.example/C'') False (Some [
         NavData ''D'' (Some ''https://d.example/D'') False None])])"

text \<open>A page laid out like the documentation site: a menu with a title link, a wrapper
  item of depth 0 and items of depth 1 and 2 below it, and an article.\<close>

definition moreItem :: dom where
  "moreItem = Element ''li'' [''nav-item''] [(''data-depth'', ''2'')]
     [Element ''a'' [''nav-link''] [(''href'', ''guide/more.html'')] [Text ''More'']]"

definition guideItem :: dom where
  "guideItem = Element ''li'' [''nav-item''] [(''data-depth'', ''1'')]
     [Element ''a'' [''nav-link''] [(''href'', ''/guide/intro'')] [Text ''Guide''],
      Element ''ul'' [''nav-list''] [] [moreItem]]"

definition githubItem :: dom where
  "githubItem = Element ''li'' [''nav-item''] [(''data-depth'', ''1'')]
     [Element ''a'' [''nav-link'', ''link-external''] [(''href'', ''https://github.com/x'')]
        [Text ''GitHub'']]"

definition exampleNavMenu :: dom where
  "exampleNavMenu = Element ''nav'' [''nav-menu''] []
     [Element ''h3'' [''title''] [] [Element ''a'' [] [(''href'', ''index.html'')] [Text ''Spring Boot'']],
      Element ''ul'' [''nav-list''] []
        [Element ''li'' [''nav-item''] [(''data-depth'', ''0'')]
           [Element ''ul'' [''nav-list''] [] [githubItem, guideItem]]]]"

definition examplePage :: dom where
  "examplePage = Element ''#document'' [] []
     [Element ''html'' [] []
        [Element ''body'' [] []
           [exampleNavMenu,
            Element ''article'' [''doc''] []
              [Element ''nav'' [''breadcrumbs''] []
                 [Element ''ul'' [] []
                    [Element ''li'' [] [] [Text ''Spring Boot''],
                     Element ''li'' [] [] [Text '' Guide '']]],
               Element ''h1'' [] [(''id'', ''page-title'')] [Text '' Intro '']]]]]"

definition movedPage :: dom where
  "movedPage = Element ''#document'' [] []
     [Element ''html'' [] [] [Element ''body'' [] [] [Element ''p'' [] [] [Text ''Moved'']]]]"

text \<open>A network whose fourth request fails and whose second request is answered by a
  page without an article; a parser and a serialiser for the two bodies. On these
  pages, parsed without a base URL, the \<open>href\<close> property of an anchor is the text of its
  attribute: the relative references do not parse, and \<open>https://github.com/x\<close> is
  serialised as it stands.\<close>

definition exampleNet :: network where
  "exampleNet k u = (if k = 4 then Inl HttpError else if k = 2 then Inr ''moved'' else Inr ''page'')"

definition exampleParse :: "string \<Rightarrow> dom" where
  "exampleParse htmlData = (if htmlData = ''moved'' then movedPage else examplePage)"


fun exampleHref :: "dom \<Rightarrow> string option" where
  "exampleHref (Element n cl as ks) = Some (case map_of as ''href'' of None \<Rightarrow> [] | Some v \<Rightarrow> v)"
| "exampleHref (Text x) = None"

definition exampleNavTree :: NavData where
  "exampleNavTree =
     NavData ''Spring Boot'' (Some ''https://docs.example.com/index.html'') False (Some [
       NavData ''GitHub'' (Some ''https://docs.example.com/https://github.com/x'') True None,
       NavData ''Guide'' (Some ''https://docs.example.com/guide/intro'') False (Some [
         NavData ''More'' (Some ''https://docs.example.com/guide/more.html'') False None])])"

definition guideNode :: NavData where
  "guideNode = NavData ''Guide'' (Some ''/guide/intro'') False (Some [
       NavData ''More'' (Some ''guide/more.html'') False None])"

text \<open>Seven tasks, a fetch whose fourth request fails, a fetch whose first request
  fails, and two orders of settling: the oldest pending promise first, or the youngest
  first.\<close>

definition sevenUrls :: "string list" where
  "sevenUrls = [''u1'', ''u2'', ''u3'', ''u4'', ''u5'', ''u6'', ''u7'']"

definition exampleDoc :: "string \<Rightarrow> ArticleDoc" where
  "exampleDoc u = \<lparr>url = u, articleTitle = ''Title of '' @ u, breadcrumbs = ''Docs'', content = ''<p/>''\<rparr>"

definition exampleFetch :: "nat \<Rightarrow> string \<Rightarrow> error + ArticleDoc" where
  "exampleFetch k u = (if k = 4 then Inl HttpError else Inr (exampleDoc u))"


definition oldestFirst :: schedule where
  "oldestFirst i n = 0"


text \<open>Two articles with the same title.\<close>

definition overviewA :: ArticleDoc where
  "overviewA = \<lparr>url = ''https://d.example/a/overview'', articleTitle = ''Overview'',
                  breadcrumbs = ''A'', content = ''<p>a</p>''\<rparr>"

definition overviewB :: ArticleDoc where
  "overviewB = \<lparr>url = ''https://d.example/b/overview'', articleTitle = ''Overview'',
                  breadcrumbs = ''B'', content = ''<p>b</p>''\<rparr>"

section \<open>Auxiliary facts\<close>

subsection \<open>The tree walk\<close>

lemma collectCallback_node:
  "collectCallback n acc = (n, acc @ map hrefText (filter fetchable [n]))"
  by (cases "href n") (simp_all add: collectCallback_def fetchable_def hrefText_def)

lemma collect_children:
  assumes "\<And>c acc. c \<in> set cs \<Longrightarrow>
     recursiveAnchorProcess collectCallback c acc
       = (c, acc @ map hrefText (filter fetchable (postorder c)))"
  shows "processChildren collectCallback cs acc =
     (cs, acc @ map hrefText (filter fetchable (concat (map postorder cs))))"
  using assms by (induction cs arbitrary: acc) simp_all

lemma collect_node:
  "recursiveAnchorProcess collectCallback n acc
     = (n, acc @ map hrefText (filter fetchable (postorder n)))"
proof (induction n arbitrary: acc)
  case (NavData t h x cs)
  show ?case
  proof (cases cs)
    case None
    then show ?thesis by (simp add: collectCallback_node)
  next
    case (Some ks)
    have "processChildren collectCallback ks acc =
            (ks, acc @ map hrefText (filter fetchable (concat (map postorder ks))))"
      by (rule collect_children) (simp add: NavData.IH Some)
    then have "recursiveAnchorProcess collectCallback (NavData t h x (Some ks)) acc =
        collectCallback (NavData t h x (Some ks))
          (acc @ map hrefText (filter fetchable (concat (map postorder ks))))"
      by simp
    also have "\<dots> = (NavData t h x (Some ks),
        acc @ map hrefText (filter fetchable (postorder (NavData t h x (Some ks)))))"
      by (simp add: collectCallback_node)
    finally show ?thesis using Some by simp
  qed
qed

lemma resolve_prefixed: "resolve h b = prefixed b h"
  by (cases h) (simp_all add: resolve_def prefixed_def startsWith_def)

lemma resolveCallback_node:
  "resolveCallback b (NavData t h x cs) u = (NavData t (map_option (prefixed b) h) x cs, u)"
  by (cases h) (simp_all add: resolveCallback_def resolve_prefixed)

lemma walk_prefixTrees:
  assumes "\<And>c. c \<in> set cs \<Longrightarrow>
     recursiveAnchorProcess (resolveCallback b) c () = (prefixTree b c, ())"
  shows "processChildren (resolveCallback b) cs () = (prefixTrees b cs, ())"
  using assms by (induction cs) simp_all

lemma walk_prefixTree:
  "recursiveAnchorProcess (resolveCallback b) n () = (prefixTree b n, ())"
proof (induction n)
  case (NavData t h x cs)
  show ?case
  proof (cases cs)
    case None
    then show ?thesis by (simp add: resolveCallback_node)
  next
    case (Some ks)
    have "processChildren (resolveCallback b) ks () = (prefixTrees b ks, ())"
      by (rule walk_prefixTrees) (simp add: NavData.IH Some)
    then have "recursiveAnchorProcess (resolveCallback b) (NavData t h x (Some ks)) () =
        resolveCallback b (NavData t h x (Some (prefixTrees b ks))) ()"
      by simp
    also have "\<dots> = (prefixTree b (NavData t h x (Some ks)), ())"
      by (simp add: resolveCallback_node)
    finally show ?thesis using Some by simp
  qed
qed

lemma prefixTree_root:
  "title (prefixTree b n) = title n
   \<and> href (prefixTree b n) = map_option (\<lambda>h. resolve h b) (href n)"
proof (cases n)
  case (NavData t h x cs)
  have "map_option (prefixed b) h = map_option (\<lambda>h. resolve h b) h"
    by (simp add: resolve_prefixed)
  then show ?thesis using NavData by (cases cs) simp_all
qed

lemma stripSlash_one: "stripSlash (c @ ''/'') = c"
  by (simp add: stripSlash_def endsWith_def)

lemma stripSlash_none: "\<not> endsWith b ''/'' \<Longrightarrow> stripSlash b = b"
  by (simp add: stripSlash_def)

subsection \<open>Extraction\<close>

lemma sequence_sum_Inr: "sequence_sum rs = Inr xs \<Longrightarrow> rs = map Inr xs"
proof (induction rs arbitrary: xs)
  case Nil
  then show ?case by simp
next
  case (Cons r rs)
  then show ?case by (cases r) (auto split: sum.splits)
qed

lemma chain2: "matches_chain [s, s'] anc k = (matches s k \<and> parentIs (matches s') anc)"
  by (cases anc) simp_all

lemma isNavList_eta: "isNavList = matches (Sel ''ul'' [''nav-list''] [])"
  by (rule ext) (simp add: isNavList_def)

lemma childElems_navItemsBelow: "childElems elem depth = navItemsBelow elem depth"
  by (simp add: childElems_def navItemsBelow_def querySelectorAll_def chain2 isNavItem_def isNavList_eta)

lemma rds_root:
  assumes "recursiveDepthSearch hrefProperty elem depth = Inr data"
  shows "\<exists>a. querySelector [Sel ''a'' [] []] elem = Some a \<and> title data = textContent a
     \<and> href data = hrefProperty a \<and> external data = classList_contains a ''link-external''"
  using assms
  by (subst (asm) recursiveDepthSearch.simps)
     (auto split: option.splits if_splits sum.splits)

subsection \<open>One batch\<close>

lemma update_isTTY: "\<exists>pb'. ProgressBar_update True n pb = (Inr (), pb')"
  by (simp add: ProgressBar_update_def ProgressBar_complete_def ProgressBar_render_def Let_def)

lemma update_notTTY: "\<exists>pb'. ProgressBar_update False n pb = (Inl TypeError, pb')"
  by (simp add: ProgressBar_update_def ProgressBar_complete_def ProgressBar_render_def Let_def)

lemma thenHandler_isTTY:
  "\<exists>st'. thenHandler True d st = (Inr (Obj d), st')
     \<and> completedCount st' = completedCount st + 1
     \<and> articleDataArr st' = articleDataArr st
     \<and> trace st' = trace st @ [Update (completedCount st + 1)]"
proof -
  obtain pb' where "ProgressBar_update True (completedCount st + 1)
      (progress (st\<lparr>completedCount := completedCount st + 1,
                    trace := trace st @ [Update (completedCount st + 1)]\<rparr>)) = (Inr (), pb')"
    using update_isTTY by blast
  then show ?thesis by (simp add: thenHandler_def Let_def)
qed

lemma catchHandler_isTTY:
  "\<exists>st'. catchHandler True e st = (Inr Null, st')
     \<and> completedCount st' = completedCount st + 1
     \<and> articleDataArr st' = articleDataArr st
     \<and> trace st' = trace st @ [Update (completedCount st + 1)]"
proof -
  obtain pb' where "ProgressBar_update True (completedCount st + 1)
      (progress (st\<lparr>completedCount := completedCount st + 1,
                    trace := trace st @ [Update (completedCount st + 1)]\<rparr>)) = (Inr (), pb')"
    using update_isTTY by blast
  then show ?thesis by (simp add: catchHandler_def Let_def)
qed

lemma settleTask_isTTY:
  "\<exists>st'. settleTask True r st = (Inr (toResult r), st')
     \<and> completedCount st' = completedCount st + 1
     \<and> articleDataArr st' = articleDataArr st
     \<and> trace st' = trace st @ [Update (completedCount st + 1)]"
proof (cases r)
  case (Inl e)
  then show ?thesis
    using catchHandler_isTTY [of e st]
    by (auto simp: settleTask_def promise_then_def promise_catch_def)
next
  case (Inr d)
  then show ?thesis
    using thenHandler_isTTY [of d st]
    by (auto simp: settleTask_def promise_then_def promise_catch_def)
qed

lemma set_remove_nth:
  assumes "k < length xs"
  shows "set xs = insert (xs ! k) (set (take k xs @ drop (Suc k) xs))"
proof -
  have "xs = take k xs @ xs ! k # drop (Suc k) xs"
    using assms by (rule id_take_nth_drop)
  then have "set xs = set (take k xs @ xs ! k # drop (Suc k) xs)" by simp
  then show ?thesis by simp
qed

lemma upt_step: "[c + 1..<c + 1 + Suc n] = (c + 1) # [c + 1 + 1..<c + 1 + 1 + n]"
  by (simp add: upt_conv_Cons del: upt_Suc)

lemma settleAll_isTTY:
  "\<exists>vals' st'. settleAll True pick fetched pending vals st = Inr (vals', st')
    \<and> completedCount st' = completedCount st + length pending
    \<and> articleDataArr st' = articleDataArr st
    \<and> trace st' = trace st @ map Update [completedCount st + 1..<completedCount st + 1 + length pending]
    \<and> length vals' = length vals
    \<and> (\<forall>j<length vals. vals' ! j = (if j \<in> set pending then toResult (fetched ! j) else vals ! j))"
proof (induction "length pending" arbitrary: pending vals st)
  case 0
  then show ?case by (simp add: settleAll.simps)
next
  case (Suc n)
  define k where "k = pick (length pending) mod length pending"
  define j where "j = pending ! k"
  define pending' where "pending' = take k pending @ drop (Suc k) pending"
  have ne: "pending \<noteq> []" using Suc.hyps by auto
  then have k: "k < length pending" by (simp add: k_def)
  have len: "length pending' = n" using Suc.hyps k by (simp add: pending'_def)
  have sets: "set pending = insert j (set pending')"
    unfolding j_def pending'_def using k by (rule set_remove_nth)
  obtain st1 where
    t: "settleTask True (fetched ! j) st = (Inr (toResult (fetched ! j)), st1)"
    and c1: "completedCount st1 = completedCount st + 1"
    and a1: "articleDataArr st1 = articleDataArr st"
    and t1: "trace st1 = trace st @ [Update (completedCount st + 1)]"
    using settleTask_isTTY [of "fetched ! j" st] by blast
  from Suc.hyps(1) [OF len [symmetric], of "vals[j := toResult (fetched ! j)]" st1]
  obtain vals' st' where
    r: "settleAll True pick fetched pending' (vals[j := toResult (fetched ! j)]) st1 = Inr (vals', st')"
    and c: "completedCount st' = completedCount st1 + length pending'"
    and a: "articleDataArr st' = articleDataArr st1"
    and tr: "trace st' = trace st1
         @ map Update [completedCount st1 + 1..<completedCount st1 + 1 + length pending']"
    and l: "length vals' = length (vals[j := toResult (fetched ! j)])"
    and v: "\<forall>i<length (vals[j := toResult (fetched ! j)]).
              vals' ! i = (if i \<in> set pending' then toResult (fetched ! i)
                           else (vals[j := toResult (fetched ! j)]) ! i)"
    by blast
  have step: "settleAll True pick fetched pending vals st =
     settleAll True pick fetched pending' (vals[j := toResult (fetched ! j)]) st1"
    using ne t
    by (subst settleAll.simps) (simp add: Let_def k_def [symmetric] j_def [symmetric] pending'_def)
  have tr': "trace st' = trace st
       @ map Update [completedCount st + 1..<completedCount st + 1 + length pending]"
    using upt_step [of "completedCount st" n] Suc.hyps(2) [symmetric]
    by (simp add: tr t1 c1 len del: upt_Suc)
  have c': "completedCount st' = completedCount st + length pending"
    using c c1 len Suc.hyps(2) by simp
  have "\<forall>i<length vals. vals' ! i = (if i \<in> set pending then toResult (fetched ! i) else vals ! i)"
    using v sets by (auto simp: nth_list_update)
  then show ?case using step r l c' a a1 tr' by simp
qed

lemma settleAll_batch:
  "\<exists>st'. settleAll True pick fetched [0..<length fetched] (replicate (length fetched) Undefined) st
      = Inr (map toResult fetched, st')
    \<and> completedCount st' = completedCount st + length fetched
    \<and> articleDataArr st' = articleDataArr st
    \<and> trace st' = trace st @ map Update [completedCount st + 1..<completedCount st + 1 + length fetched]"
proof -
  obtain vals' st' where
    r: "settleAll True pick fetched [0..<length fetched] (replicate (length fetched) Undefined) st
          = Inr (vals', st')"
    and c: "completedCount st' = completedCount st + length [0..<length fetched]"
    and a: "articleDataArr st' = articleDataArr st"
    and t: "trace st' = trace st
         @ map Update [completedCount st + 1..<completedCount st + 1 + length [0..<length fetched]]"
    and l: "length vals' = length (replicate (length fetched) (Undefined :: ArticleDoc js))"
    and v: "\<forall>j<length (replicate (length fetched) (Undefined :: ArticleDoc js)).
         vals' ! j = (if j \<in> set [0..<length fetched] then toResult (fetched ! j)
                      else (replicate (length fetched) Undefined) ! j)"
    using settleAll_isTTY [of pick fetched "[0..<length fetched]" "replicate (length fetched) Undefined" st]
    by blast
  have "vals' = map toResult fetched"
    using l v by (intro nth_equalityI) simp_all
  then show ?thesis using r c a t by simp
qed

lemma filterBoolean_toResult: "filterBoolean (map toResult rs) = successes rs"
proof (induction rs)
  case Nil
  then show ?case by simp
next
  case (Cons r rs)
  then show ?case by (cases r) simp_all
qed

lemma successes_append: "successes (xs @ ys) = successes xs @ successes ys"
proof (induction xs)
  case Nil
  then show ?case by simp
next
  case (Cons r rs)
  then show ?case by (cases r) simp_all
qed

lemma batchPromises_eq:
  assumes "i < length urls"
  shows "map (\<lambda>(p, u). fetchOne (i + p + 1) u)
           (zip [0..<length (slice urls i (i + B))] (slice urls i (i + B)))
         = outcomes fetchOne urls i (min (i + B) (length urls))"
proof (rule nth_equalityI)
  show "length (map (\<lambda>(p, u). fetchOne (i + p + 1) u)
           (zip [0..<length (slice urls i (i + B))] (slice urls i (i + B))))
        = length (outcomes fetchOne urls i (min (i + B) (length urls)))"
    by (simp add: slice_def outcomes_def)
next
  fix p
  assume "p < length (map (\<lambda>(p, u). fetchOne (i + p + 1) u)
           (zip [0..<length (slice urls i (i + B))] (slice urls i (i + B))))"
  then have p: "p < length (slice urls i (i + B))" by simp
  then have p': "p < min (i + B) (length urls) - i" by (simp add: slice_def)
  have "slice urls i (i + B) ! p = urls ! (i + p)"
    using p' by (simp add: slice_def)
  then have "map (\<lambda>(p, u). fetchOne (i + p + 1) u)
           (zip [0..<length (slice urls i (i + B))] (slice urls i (i + B))) ! p
        = fetchOne (i + p + 1) (urls ! (i + p))"
    using p by simp
  moreover have "outcomes fetchOne urls i (min (i + B) (length urls)) ! p
        = fetchOne (i + p + 1) (urls ! (i + p))"
  proof -
    have "i + p < min (i + B) (length urls)" using p' by arith
    then have "[i..<min (i + B) (length urls)] ! p = i + p" by (rule nth_upt)
    then show ?thesis using p' by (simp add: outcomes_def)
  qed
  ultimately show "map (\<lambda>(p, u). fetchOne (i + p + 1) u)
           (zip [0..<length (slice urls i (i + B))] (slice urls i (i + B))) ! p
        = outcomes fetchOne urls i (min (i + B) (length urls)) ! p"
    by simp
qed

lemma slice_take_drop: "slice urls i (i + B) = take B (drop i urls)"
  by (simp add: slice_def drop_take)

lemma outcomes_split:
  assumes "i < length urls"
  shows "outcomes fetchOne urls i (length urls) =
         outcomes fetchOne urls i (min (i + B) (length urls)) @ outcomes fetchOne urls (i + B) (length urls)"
proof (cases "i + B \<le> length urls")
  case True
  have "[i..<(i + B) + (length urls - (i + B))] = [i..<i + B] @ [i + B..<(i + B) + (length urls - (i + B))]"
    by (rule upt_add_eq_append) simp
  then have "[i..<length urls] = [i..<i + B] @ [i + B..<length urls]"
    using True by simp
  then show ?thesis using True by (simp add: outcomes_def min_def)
next
  case False
  then show ?thesis by (simp add: outcomes_def min_def)
qed

lemma batchLoop_isTTY:
  assumes B: "0 < B"
  shows "\<exists>st'. batchLoop B True fetchOne pick urls i st = Some (Inr st')
    \<and> completedCount st' = completedCount st + (length urls - i)
    \<and> articleDataArr st' = articleDataArr st @ successes (outcomes fetchOne urls i (length urls))
    \<and> trace st' = trace st @ batchTrace B (completedCount st) (drop i urls)"
proof (induction "length urls - i" arbitrary: i st rule: less_induct)
  case less
  show ?case
  proof (cases "i < length urls")
    case False
    then show ?thesis
      by (subst batchLoop.simps) (simp add: outcomes_def batchTrace.simps)
  next
    case True
    define batch where "batch = slice urls i (i + B)"
    define fetched where "fetched = outcomes fetchOne urls i (min (i + B) (length urls))"
    define st1 where "st1 = st\<lparr>trace := trace st @ [Requests batch]\<rparr>"
    have promises: "map (\<lambda>(p, u). fetchOne (i + p + 1) u) (zip [0..<length batch] batch) = fetched"
      unfolding batch_def fetched_def using True by (rule batchPromises_eq)
    have len: "length batch = length fetched"
      by (simp add: batch_def fetched_def slice_def outcomes_def)
    obtain st2 where
      settle: "settleAll True (pick i) fetched [0..<length batch] (replicate (length batch) Undefined) st1
        = Inr (map toResult fetched, st2)"
      and c2: "completedCount st2 = completedCount st1 + length fetched"
      and a2: "articleDataArr st2 = articleDataArr st1"
      and t2: "trace st2 = trace st1
           @ map Update [completedCount st1 + 1..<completedCount st1 + 1 + length fetched]"
      using settleAll_batch [of "pick i" fetched st1] unfolding len by blast
    define st3 where "st3 = st2\<lparr>articleDataArr := articleDataArr st2 @ successes fetched,
        trace := trace st2 @ [Delay 500]\<rparr>"
    have step: "batchLoop B True fetchOne pick urls i st = batchLoop B True fetchOne pick urls (i + B) st3"
      using True promises settle unfolding batch_def st1_def
      by (subst batchLoop.simps) (simp add: Let_def filterBoolean_toResult st3_def)
    have "length urls - (i + B) < length urls - i"
      using True B by arith
    then obtain st' where
      rest: "batchLoop B True fetchOne pick urls (i + B) st3 = Some (Inr st')"
      and c: "completedCount st' = completedCount st3 + (length urls - (i + B))"
      and a: "articleDataArr st' = articleDataArr st3
           @ successes (outcomes fetchOne urls (i + B) (length urls))"
      and t: "trace st' = trace st3 @ batchTrace B (completedCount st3) (drop (i + B) urls)"
      using less [of "i + B" st3] by blast
    have lf: "length fetched = min (i + B) (length urls) - i"
      by (simp add: fetched_def outcomes_def)
    have cnt: "length fetched + (length urls - (i + B)) = length urls - i"
      using True lf by arith
    have tr: "batchTrace B (completedCount st) (drop i urls) =
        Requests batch # map Update [completedCount st + 1..<completedCount st + 1 + length fetched]
          @ Delay 500 # batchTrace B (completedCount st + length fetched) (drop (i + B) urls)"
    proof -
      have tk: "take B (drop i urls) = batch"
        by (simp add: batch_def slice_take_drop)
      have "length (take B (drop i urls)) = min B (length urls - i)" by simp
      also have "\<dots> = length fetched" using lf by arith
      finally have ltk: "length (take B (drop i urls)) = length fetched" .
      have dd: "drop B (drop i urls) = drop (i + B) urls"
        by (simp add: add.commute)
      have "batchTrace B (completedCount st) (drop i urls) =
          Requests (take B (drop i urls))
            # map Update [completedCount st + 1..<completedCount st + 1 + length (take B (drop i urls))]
            @ Delay 500 # batchTrace B (completedCount st + length (take B (drop i urls))) (drop B (drop i urls))"
        using True B by (subst batchTrace.simps) simp
      then show ?thesis by (simp only: ltk dd) (simp only: tk)
    qed
    have c3: "completedCount st3 = completedCount st + length fetched"
      by (simp add: st3_def c2 st1_def)
    have a3: "articleDataArr st3 = articleDataArr st @ successes fetched"
      by (simp add: st3_def a2 st1_def)
    have t3: "trace st3 = trace st @ Requests batch
          # map Update [completedCount st + 1..<completedCount st + 1 + length fetched] @ [Delay 500]"
      by (simp add: st3_def t2 st1_def)
    have "completedCount st' = completedCount st + (length urls - i)"
      using c c3 cnt by simp
    moreover have "articleDataArr st' = articleDataArr st
         @ successes (outcomes fetchOne urls i (length urls))"
      using a a3 outcomes_split [OF True, of fetchOne B]
      by (simp add: successes_append fetched_def)
    moreover have "trace st' = trace st @ batchTrace B (completedCount st) (drop i urls)"
      by (simp only: t t3 c3 tr) simp
    ultimately show ?thesis using step rest by simp
  qed
qed

lemma run_isTTY:
  assumes "0 < B"
  shows "\<exists>st. batchLoop B True fetchOne pick urls 0 (initialState n) = Some (Inr st)
     \<and> completedCount st = length urls
     \<and> articleDataArr st = successes (outcomes fetchOne urls 0 (length urls))
     \<and> trace st = batchTrace B 0 urls"
  using batchLoop_isTTY [OF assms, of fetchOne pick urls 0 "initialState n"]
  by (simp add: initialState_def)

text \<open>Without a terminal the first promise to settle rejects, and the run ends there.\<close>

lemma settleTask_notTTY:
  "\<exists>st'. settleTask False r st = (Inl TypeError, st')
     \<and> completedCount st' = completedCount st + (case r of Inl e \<Rightarrow> 1 | Inr d \<Rightarrow> 2)
     \<and> trace st' = trace st
         @ (case r of Inl e \<Rightarrow> [Update (completedCount st + 1)]
            | Inr d \<Rightarrow> [Update (completedCount st + 1), Update (completedCount st + 2)])"
  by (cases r)
     (simp_all add: settleTask_def promise_then_def promise_catch_def thenHandler_def
        catchHandler_def ProgressBar_update_def ProgressBar_complete_def ProgressBar_render_def Let_def)

subsection \<open>The trace of a run\<close>












subsection \<open>The index and the examples\<close>

lemma dom_setProperty:
  "dom (setProperty obj key v) = dom obj \<union> ({key} - {''__proto__''})"
  by (auto simp: setProperty_def)

lemma dom_foldl_setProperty:
  "dom (foldl (\<lambda>obj d. setProperty obj (articleTitle d) (f d)) obj docs)
     = dom obj \<union> (set (map articleTitle docs) - {''__proto__''})"
proof (induction docs arbitrary: obj)
  case Nil
  then show ?case by simp
next
  case (Cons d docs)
  show ?case by (simp add: Cons.IH dom_setProperty) blast
qed

lemma dom_allArticleData:
  "dom (allArticleData docs) = set (map articleTitle docs) - {''__proto__''}"
  unfolding allArticleData_def by (simp add: dom_foldl_setProperty)

lemma card_titles_le: "card (set (map articleTitle docs) - {''__proto__''}) \<le> length docs"
proof -
  have "card (set (map articleTitle docs) - {''__proto__''}) \<le> card (set (map articleTitle docs))"
    by (rule card_mono) auto
  also have "\<dots> \<le> length (map articleTitle docs)" by (rule card_length)
  finally show ?thesis by simp
qed

lemma exampleNavTree_run:
  "getSpringBootDocsNavData exampleNet exampleHref exampleParse ''https://docs.example.com''
     = Inr exampleNavTree"
  by code_simp

lemma guideItem_run: "recursiveDepthSearch exampleHref guideItem 2 = Inr guideNode"
  by code_simp


lemma sevenTrace_eq:
  "batchTrace 2 0 sevenUrls =
     [Requests [''u1'', ''u2''], Update 1, Update 2, Delay 500,
      Requests [''u3'', ''u4''], Update 3, Update 4, Delay 500,
      Requests [''u5'', ''u6''], Update 5, Update 6, Delay 500,
      Requests [''u7''], Update 7, Delay 500]"
  by (simp add: batchTrace.simps sevenUrls_def)

section \<open>The claims\<close>

subsection \<open>Link resolution\<close>

text \<open>
  Claim C1: link resolution is idempotent, and an href that is already an absolute URL
  is returned unchanged. The comment above the assignment says that the base URL is put
  in front of a relative path, yet the code puts it in front of every non-empty href. At
  the href \<open>https://x.com/a\<close> the result is the base URL, a slash and the href; resolving
  the result of \<open>/guide/intro\<close> a second time changes it again; and in the tree extracted
  from the example page the external link to \<open>https://github.com/x\<close> has become
  \<open>https://docs.example.com/https://github.com/x\<close>.
\<close>

theorem resolve_prefixes_absolute_href:
  "resolve ''https://x.com/a'' ''https://docs.example.com''
     = ''https://docs.example.com/https://x.com/a''
   \<and> resolve ''/guide/intro'' ''https://docs.example.com'' = ''https://docs.example.com/guide/intro''
   \<and> resolve (resolve ''/guide/intro'' ''https://docs.example.com'') ''https://docs.example.com''
     = ''https://docs.example.com/https://docs.example.com/guide/intro''
   \<and> getSpringBootDocsNavData exampleNet exampleHref exampleParse ''https://docs.example.com''
     = Inr exampleNavTree"
  by (simp add: resolve_def startsWith_def exampleNavTree_run)

subsection \<open>Collecting the URLs\<close>

text \<open>
  Claim C2, as amended: collecting the URLs by the tree walk yields the links of the
  nodes that have a non-empty link and are not external, every node after all the nodes
  below it and siblings in the order of their parent's children. (The claim says parent
  before children.)
\<close>

theorem collectArticleUrls_postorder:
  "collectArticleUrls refinedData = map hrefText (filter fetchable (postorder refinedData))"
  by (simp add: collectArticleUrls_def collect_node)

text \<open>On the tree of the specification's scenario the walk yields A, D, C: the child D
  comes before its parent C, so the sequence is not A, C, D.\<close>

theorem collectArticleUrls_example_children_first:
  "collectArticleUrls exampleTree
     = [''https://d.example/A'', ''https://d.example/D'', ''https://d.example/C'']
   \<and> collectArticleUrls exampleTree
     \<noteq> [''https://d.example/A'', ''https://d.example/C'', ''https://d.example/D'']"
  by (simp add: collectArticleUrls_def exampleTree_def collectCallback_def)

theorem collectArticleUrls_postorder_witness:
  "map hrefText (filter fetchable (postorder exampleTree))
     = [''https://d.example/A'', ''https://d.example/D'', ''https://d.example/C'']"
  using collectArticleUrls_postorder [of exampleTree]
  by (simp add: collectArticleUrls_def exampleTree_def collectCallback_def)

subsection \<open>Extraction\<close>

text \<open>
  Claim C3, as amended: extraction called with depth \<open>d\<close> takes as children the
  navigation items anywhere below the container (list items of class \<open>nav-item\<close> whose
  parent is a list of class \<open>nav-list\<close>) whose depth marker is the decimal numeral of
  \<open>d\<close>, in document order, and extracts each with depth \<open>d + 1\<close>; a container with no such
  item is extracted as a leaf. (The claim says direct children with marker \<open>d + 1\<close>.)
\<close>

theorem recursiveDepthSearch_children:
  assumes "recursiveDepthSearch hrefProperty elem depth = Inr data"
  shows "(navItemsBelow elem depth = [] \<and> childData data = None)
       \<or> (navItemsBelow elem depth \<noteq> [] \<and>
          (\<exists>children. childData data = Some children \<and>
             map (\<lambda>c. recursiveDepthSearch hrefProperty c (depth + 1)) (navItemsBelow elem depth)
               = map Inr children))"
  using assms
  by (subst (asm) recursiveDepthSearch.simps)
     (auto simp: childElems_navItemsBelow split: option.splits if_splits sum.splits
           dest: sequence_sum_Inr)

text \<open>The item Guide has marker 1 and holds the item More of marker 2. Extracted with
  depth 2 it gets More as its child, although it has no item of marker 3 directly below
  it.\<close>

theorem recursiveDepthSearch_marker_is_depth:
  "recursiveDepthSearch exampleHref guideItem 2 = Inr guideNode
   \<and> childData guideNode = Some [NavData ''More'' (Some ''guide/more.html'') False None]
   \<and> spec_childItems guideItem 2 = []"
  by code_simp

theorem recursiveDepthSearch_children_witness:
  "(navItemsBelow guideItem 2 = [] \<and> childData guideNode = None)
       \<or> (navItemsBelow guideItem 2 \<noteq> [] \<and>
          (\<exists>children. childData guideNode = Some children \<and>
             map (\<lambda>c. recursiveDepthSearch exampleHref c (2 + 1)) (navItemsBelow guideItem 2)
               = map Inr children))"
  using recursiveDepthSearch_children [OF guideItem_run] .

subsection \<open>The pause\<close>

text \<open>
  Claim C4: the scheduler pauses after a batch has settled only when more batches
  remain, and never after the final batch. The comment on the timer says that it delays
  between batches to spare the server, yet the \<open>await\<close> of the timer is the last statement
  of every iteration. With seven tasks in batches of two, on a terminal, the run ends
  normally with this trace: after the seventh task has settled and the progress has
  been updated with 7, the run pauses once more for 500 milliseconds, with no batch
  left.
\<close>

theorem batchLoop_delay_after_final_batch:
  "runError (batchLoop 2 True exampleFetch oldestFirst sevenUrls 0 (initialState 7)) = None
   \<and> map_option trace (runState (batchLoop 2 True exampleFetch oldestFirst sevenUrls 0 (initialState 7)))
     = Some [Requests [''u1'', ''u2''], Update 1, Update 2, Delay 500,
             Requests [''u3'', ''u4''], Update 3, Update 4, Delay 500,
             Requests [''u5'', ''u6''], Update 5, Update 6, Delay 500,
             Requests [''u7''], Update 7, Delay 500]"
proof -
  have "(0::nat) < 2" by simp
  then obtain st where
    "batchLoop 2 True exampleFetch oldestFirst sevenUrls 0 (initialState 7) = Some (Inr st)"
    and "trace st = batchTrace 2 0 sevenUrls"
    using run_isTTY [of 2 exampleFetch oldestFirst sevenUrls 7] by blast
  then show ?thesis by (simp add: sevenTrace_eq)
qed

subsection \<open>The index\<close>

text \<open>
  Claim C5, as amended: the index built from a sequence of fetch results has one entry
  for each distinct title among the fulfilled results, the title \<open>__proto__\<close> apart; that
  is at most the number of fulfilled results, and exactly that number when their titles
  are pairwise distinct and none is \<open>__proto__\<close>. (The claim says always exactly that
  number.)
\<close>

theorem allArticleData_entries:
  "card (dom (allArticleData (filterBoolean results)))
     = card (set (map articleTitle (filterBoolean results)) - {''__proto__''})
   \<and> card (dom (allArticleData (filterBoolean results))) \<le> length (filterBoolean results)
   \<and> (distinct (map articleTitle (filterBoolean results))
        \<and> ''__proto__'' \<notin> set (map articleTitle (filterBoolean results))
      \<longrightarrow> card (dom (allArticleData (filterBoolean results))) = length (filterBoolean results))"
proof (intro conjI impI)
  show "card (dom (allArticleData (filterBoolean results)))
     = card (set (map articleTitle (filterBoolean results)) - {''__proto__''})"
    by (simp only: dom_allArticleData)
  show "card (dom (allArticleData (filterBoolean results))) \<le> length (filterBoolean results)"
    by (simp only: dom_allArticleData card_titles_le)
  assume a: "distinct (map articleTitle (filterBoolean results))
        \<and> ''__proto__'' \<notin> set (map articleTitle (filterBoolean results))"
  then have "set (map articleTitle (filterBoolean results)) - {''__proto__''}
      = set (map articleTitle (filterBoolean results))"
    by blast
  then have "card (dom (allArticleData (filterBoolean results)))
      = card (set (map articleTitle (filterBoolean results)))"
    by (simp only: dom_allArticleData)
  also have "\<dots> = length (map articleTitle (filterBoolean results))"
    using a by (simp only: distinct_card)
  finally show "card (dom (allArticleData (filterBoolean results))) = length (filterBoolean results)"
    by simp
qed

text \<open>Two fulfilled results with the title Overview and one failure: two successes,
  one entry.\<close>

theorem allArticleData_same_title_one_entry:
  "card (dom (allArticleData (filterBoolean [Obj overviewA, Null, Obj overviewB]))) = 1
   \<and> length (filterBoolean [Obj overviewA, Null, Obj overviewB]) = 2"
  by (simp add: allArticleData_def setProperty_def overviewA_def overviewB_def)

theorem allArticleData_entries_witness:
  "distinct (map articleTitle (filterBoolean [Obj (exampleDoc ''u1''), Null, Obj (exampleDoc ''u2'')]))
   \<and> ''__proto__'' \<notin> set (map articleTitle (filterBoolean [Obj (exampleDoc ''u1''), Null, Obj (exampleDoc ''u2'')]))
   \<and> card (dom (allArticleData (filterBoolean [Obj (exampleDoc ''u1''), Null, Obj (exampleDoc ''u2'')]))) = 2"
  using allArticleData_entries [of "[Obj (exampleDoc ''u1''), Null, Obj (exampleDoc ''u2'')]"]
  by (simp add: exampleDoc_def)

subsection \<open>Progress\<close>




subsection \<open>Failures\<close>




subsection \<open>The partition\<close>




subsection \<open>The root\<close>

text \<open>
  Claim C9, as amended: the root of the navigation tree carries the text and the link
  of the first anchor below the navigation menu (extraction fails when there is none):
  after extraction its title and link are those of the anchor, after link resolution
  its title is the same and its link is the resolved link of the anchor. They are empty
  only when the anchor's are. (The claim says they are always empty.)
\<close>

theorem navData_root_from_anchor:
  assumes "getSpringBootDocsNavData net hrefProperty convertHtmlToDOM baseURL = Inr root"
  shows "\<exists>htmlData nav a extracted.
           net 0 (stripSlash baseURL) = Inr htmlData
         \<and> querySelector [Sel ''nav'' [''nav-menu''] []] (convertHtmlToDOM htmlData) = Some nav
         \<and> querySelector [Sel ''a'' [] []] nav = Some a
         \<and> recursiveDepthSearch hrefProperty nav 1 = Inr extracted
         \<and> title extracted = textContent a \<and> href extracted = hrefProperty a
         \<and> title root = textContent a
         \<and> href root = map_option (\<lambda>h. resolve h (stripSlash baseURL)) (hrefProperty a)"
  using assms rds_root prefixTree_root
  by (fastforce simp: getSpringBootDocsNavData_def getHtmlData_def Let_def walk_prefixTree
        split: sum.splits option.splits)

text \<open>On the example page the root is titled Spring Boot and links to the index page,
  after extraction and after link resolution.\<close>

theorem navData_root_not_empty:
  "map_sum id title (recursiveDepthSearch exampleHref exampleNavMenu 1) = Inr ''Spring Boot''
   \<and> map_sum id href (recursiveDepthSearch exampleHref exampleNavMenu 1) = Inr (Some ''index.html'')
   \<and> getSpringBootDocsNavData exampleNet exampleHref exampleParse ''https://docs.example.com''
       = Inr exampleNavTree
   \<and> title exampleNavTree = ''Spring Boot''
   \<and> href exampleNavTree = Some ''https://docs.example.com/index.html''"
  by code_simp

theorem navData_root_from_anchor_witness:
  "\<exists>htmlData nav a extracted.
           exampleNet 0 (stripSlash ''https://docs.example.com'') = Inr htmlData
         \<and> querySelector [Sel ''nav'' [''nav-menu''] []] (exampleParse htmlData) = Some nav
         \<and> querySelector [Sel ''a'' [] []] nav = Some a
         \<and> recursiveDepthSearch exampleHref nav 1 = Inr extracted
         \<and> title extracted = textContent a \<and> href extracted = exampleHref a
         \<and> title exampleNavTree = textContent a
         \<and> href exampleNavTree
             = map_option (\<lambda>h. resolve h (stripSlash ''https://docs.example.com'')) (exampleHref a)"
  using navData_root_from_anchor [OF exampleNavTree_run] .

subsection \<open>The trailing slash\<close>

text \<open>
  Claim C10: the extraction strips one trailing slash from the base URL before it uses
  it. For a base URL \<open>b\<close> that does not end in a slash, the run with \<open>b/\<close> (on the same
  network, parser and DOM) gives what the run with \<open>b\<close> gives, and that is: the page is
  requested at \<open>b\<close> itself; a failed request, a page without a menu or a failed
  extraction is the result; otherwise the result is the extracted tree with \<open>b\<close> put in
  front of every non-empty link, a slash between the two unless the link begins with
  one. Exactly one slash is stripped: for every string \<open>c\<close>, stripping \<open>c/\<close> gives \<open>c\<close>, also
  when \<open>c\<close> ends in a slash itself.
\<close>

theorem navData_trailing_slash:
  assumes "\<not> endsWith b ''/''"
  shows "getSpringBootDocsNavData net hrefProperty convertHtmlToDOM (b @ ''/'')
           = getSpringBootDocsNavData net hrefProperty convertHtmlToDOM b
       \<and> getSpringBootDocsNavData net hrefProperty convertHtmlToDOM (b @ ''/'')
           = (case net 0 b of
                Inl e \<Rightarrow> Inl e
              | Inr htmlData \<Rightarrow>
                  (case querySelector [Sel ''nav'' [''nav-menu''] []] (convertHtmlToDOM htmlData) of
                     None \<Rightarrow> Inl TypeError
                   | Some rootNavElem \<Rightarrow>
                       map_sum id (prefixTree b) (recursiveDepthSearch hrefProperty rootNavElem 1)))
       \<and> stripSlash (b @ ''/'') = b
       \<and> stripSlash b = b
       \<and> stripSlash (c @ ''/'') = c"
  using assms
  by (auto simp: getSpringBootDocsNavData_def getHtmlData_def stripSlash_one stripSlash_none
        walk_prefixTree split: sum.splits option.splits)

theorem navData_trailing_slash_witness:
  "\<not> endsWith ''https://docs.example.com'' ''/''
   \<and> getSpringBootDocsNavData exampleNet exampleHref exampleParse (''https://docs.example.com'' @ ''/'')
       = Inr exampleNavTree
   \<and> getSpringBootDocsNavData exampleNet exampleHref exampleParse ''https://docs.example.com''
       = Inr exampleNavTree
   \<and> stripSlash (''https://docs.example.com'' @ ''/'') = ''https://docs.example.com''
   \<and> stripSlash (''https://docs.example.com/'' @ ''/'') = ''https://docs.example.com/''"
proof -
  have h: "\<not> endsWith ''https://docs.example.com'' ''/''"
    by (simp add: endsWith_def)
  show ?thesis
    using h exampleNavTree_run
      navData_trailing_slash [OF h, of exampleNet exampleHref exampleParse "''https://docs.example.com/''"]
    by simp
qed

end
